theory Spec2Isabelle
  imports Main
begin

text \<open>
  A model of the two components of the library tool-chain-core: the Chains engine
  (\<open>Chains\<close>, \<open>ChainsInitImpl\<close>, \<open>ChainsImpl\<close> with the helpers \<open>shouldRetry\<close>,
  \<open>normalizeError\<close>, \<open>parseChainOptions\<close>, \<open>wrapResult\<close> and the class \<open>TimeoutError\<close>)
  and the Tasks runner (\<open>Tasks\<close>, \<open>TasksWithTasks\<close>). Promises are modelled by how
  they end, mutation by state passing, thrown errors by values; time is the number of
  milliseconds a call takes to settle.
\<close>

section \<open>JavaScript values and errors\<close>

text \<open>
  The constructors an error can be an instance of: the built-in \<open>Error\<close>, the engine's
  own class \<open>TimeoutError\<close> (declared in the Chains module and not exported), and every
  other subclass of \<open>Error\<close>, built in (\<open>TypeError\<close>) or declared by the caller
  (\<open>class NetworkError extends Error\<close>), told apart by name.
\<close>

datatype ctor = ErrorCtor | TimeoutErrorCtor | UserCtor string

text \<open>
  An error object. \<open>UserError cs m\<close> is an error with message \<open>m\<close> that is not a
  \<open>TimeoutError\<close>; \<open>cs\<close> lists the classes on its prototype chain below \<open>Error\<close>, most
  derived first (\<open>[]\<close> for a plain \<open>new Error(m)\<close>, \<open>[''TypeError'']\<close> for a
  \<open>TypeError\<close>). \<open>TimeoutError t s\<close> is the engine's class with its two fields
  \<open>timeout\<close> and \<open>step\<close>.
\<close>

datatype jserror =
    UserError "string list" string
  | TimeoutError nat "nat option"

text \<open>
  The values a step can return, throw or read from the results view. Numbers are the
  integers; an object is its list of own properties, whose values are values of this
  type, so no property of an object is a function.
\<close>

datatype jsval =
    VUndefined
  | VNull
  | VBool bool
  | VNum int
  | VStr string
  | VError jserror
  | VObject "(string \<times> jsval) list"

subsection \<open>Strings\<close>

text \<open>
  Numbers as template literals and \<open>String\<close> print them: in full below \<open>10\<^sup>2\<^sup>1\<close>, from
  there on as \<open>d.ddde+n\<close>, the digits up to the last one that is not zero and the
  exponent.
\<close>

definition digit_char :: "nat \<Rightarrow> char" where
  "digit_char d = ''0123456789'' ! d"

fun decimal :: "nat \<Rightarrow> string" where
  "decimal n = (if n < 10 then [digit_char n] else decimal (n div 10) @ [digit_char (n mod 10)])"

declare decimal.simps [simp del]

definition significant :: "string \<Rightarrow> string" where
  "significant ds = rev (dropWhile (\<lambda>c. c = CHR ''0'') (rev ds))"

definition exponent_form :: "string \<Rightarrow> string" where
  "exponent_form ds =
     hd ds # (if tl (significant ds) = [] then [] else CHR ''.'' # tl (significant ds))
       @ ''e+'' @ decimal (length ds - 1)"

definition magnitude_text :: "nat \<Rightarrow> string" where
  "magnitude_text n = (if n < 10 ^ 21 then decimal n else exponent_form (decimal n))"

definition number_text :: "int \<Rightarrow> string" where
  "number_text i = (if 0 \<le> i then magnitude_text (nat i) else CHR ''-'' # magnitude_text (nat (- i)))"

text \<open>
  \<open>startsWith m s\<close> is \<open>m.startsWith(s)\<close>; \<open>js_includes m s\<close> is \<open>m.includes(s)\<close>:
  \<open>s\<close> occurs in \<open>m\<close> at some position.
\<close>

definition startsWith :: "string \<Rightarrow> string \<Rightarrow> bool" where
  "startsWith m s = (take (length s) m = s)"

fun js_includes :: "string \<Rightarrow> string \<Rightarrow> bool" where
  "js_includes [] s = (s = [])"
| "js_includes (c # cs) s = (startsWith (c # cs) s \<or> js_includes cs s)"

subsection \<open>The class TimeoutError\<close>

text \<open>
  The constructor of \<open>TimeoutError\<close> builds the message from its two arguments:
  \<open>Operation timeout${stepInfo}: exceeded ${timeout}ms\<close>, where \<open>stepInfo\<close> is
  \<open>at step ${step}\<close> when a step is given.
\<close>

definition stepInfo :: "nat option \<Rightarrow> string" where
  "stepInfo step = (case step of None \<Rightarrow> '''' | Some s \<Rightarrow> '' at step '' @ magnitude_text s)"

fun message :: "jserror \<Rightarrow> string" where
  "message (UserError cs m) = m"
| "message (TimeoutError t step) =
     ''Operation timeout'' @ stepInfo step @ '': exceeded '' @ magnitude_text t @ ''ms''"

fun proto_chain :: "jserror \<Rightarrow> ctor list" where
  "proto_chain (UserError cs m) = map UserCtor cs @ [ErrorCtor]"
| "proto_chain (TimeoutError t step) = [TimeoutErrorCtor, ErrorCtor]"

text \<open>\<open>instanceof e c\<close> is \<open>e instanceof c\<close>; \<open>constructor_of e\<close> is \<open>e.constructor\<close>.\<close>

definition instanceof :: "jserror \<Rightarrow> ctor \<Rightarrow> bool" where
  "instanceof e c = (c \<in> set (proto_chain e))"

definition constructor_of :: "jserror \<Rightarrow> ctor" where
  "constructor_of e = hd (proto_chain e)"

subsection \<open>Conversion to a string\<close>

text \<open>
  \<open>Error.prototype.toString\<close> prints the name and the message of an error. The name is
  \<open>TimeoutError\<close> for the engine's class, which sets it, and otherwise the name of the
  nearest built-in class on the prototype chain, for a class that does not set one.
\<close>

definition builtin_error_classes :: "string list" where
  "builtin_error_classes =
     [''TypeError'', ''RangeError'', ''SyntaxError'', ''ReferenceError'', ''EvalError'', ''URIError'']"

fun error_name :: "jserror \<Rightarrow> string" where
  "error_name (TimeoutError t step) = ''TimeoutError''"
| "error_name (UserError cs m) =
     (case filter (\<lambda>c. c \<in> set builtin_error_classes) cs of [] \<Rightarrow> ''Error'' | c # rest \<Rightarrow> c)"

definition error_text :: "jserror \<Rightarrow> string" where
  "error_text e = (if message e = [] then error_name e else error_name e @ '': '' @ message e)"

text \<open>
  \<open>String(v)\<close>. For an object the conversion calls its \<open>toString\<close>, then its \<open>valueOf\<close>.
  An object without an own property \<open>toString\<close> inherits the one of \<open>Object.prototype\<close>
  and prints as \<open>[object Object]\<close>. An own property \<open>toString\<close> is not a function here,
  so the conversion goes on to \<open>valueOf\<close>, which is not a function either or is the one
  of \<open>Object.prototype\<close> and returns the object: no primitive value is found and
  \<open>String\<close> throws a \<open>TypeError\<close> (\<open>Inl\<close>), as for \<open>{toString: 1}\<close>.
\<close>

definition conversion_error :: jserror where
  "conversion_error = UserError [''TypeError''] ''Cannot convert object to primitive value''"

fun js_String :: "jsval \<Rightarrow> jserror + string" where
  "js_String VUndefined = Inr ''undefined''"
| "js_String VNull = Inr ''null''"
| "js_String (VBool b) = Inr (if b then ''true'' else ''false'')"
| "js_String (VNum i) = Inr (number_text i)"
| "js_String (VStr s) = Inr s"
| "js_String (VError e) = Inr (error_text e)"
| "js_String (VObject ps) =
     (if ''toString'' \<in> fst ` set ps then Inl conversion_error else Inr ''[object Object]'')"

section \<open>Helper functions of the Chains module\<close>

text \<open>
  The four shapes of \<open>retryWhen\<close>: a constructor, an error instance, a string, a regular
  expression. A regular expression is an object with state: \<open>test\<close> reads and, with the
  flag \<open>g\<close> or \<open>y\<close>, writes its \<open>lastIndex\<close>. The object belongs to the caller, so
  \<open>test\<close> is a function of the string and of the caller's variables (of type \<open>'u\<close>),
  which it may change.
\<close>

datatype 'u retry_when =
    RwConstructor ctor
  | RwError jserror
  | RwString string
  | RwRegExp "string \<Rightarrow> 'u \<Rightarrow> bool \<times> 'u"

text \<open>
  \<open>shouldRetry(error, retryWhen)\<close>, with the caller's variables passed through. The
  first line, \<open>if (!retryWhen) return true\<close>, takes the absent option and the empty
  string, the two falsy values of the type.
\<close>

fun shouldRetry :: "jserror \<Rightarrow> 'u retry_when option \<Rightarrow> 'u \<Rightarrow> bool \<times> 'u" where
  "shouldRetry error None u = (True, u)"
| "shouldRetry error (Some (RwConstructor c)) u = (instanceof error c, u)"
| "shouldRetry error (Some (RwError inst)) u = (instanceof error (constructor_of inst), u)"
| "shouldRetry error (Some (RwString s)) u =
     (if s = [] then True
      else if s = ''timeout'' then instanceof error TimeoutErrorCtor
      else js_includes (message error) s, u)"
| "shouldRetry error (Some (RwRegExp test)) u = test (message error) u"

text \<open>
  \<open>normalizeError(error)\<close>: an Error object is kept, anything else becomes
  \<open>new Error(String(error))\<close>. \<open>Inr e\<close> is the error returned; \<open>Inl t\<close> is \<open>throw t\<close>,
  when \<open>String\<close> throws.
\<close>

fun normalizeError :: "jsval \<Rightarrow> jserror + jserror" where
  "normalizeError (VError e) = Inr e"
| "normalizeError v = (case js_String v of Inl t \<Rightarrow> Inl t | Inr s \<Rightarrow> Inr (UserError [] s))"

text \<open>
  The options object of \<open>chain\<close>; every key is optional. \<open>retry\<close> is an integer (a
  negative one keeps the loop from being entered); \<open>retryDelay\<close> and \<open>timeout\<close> are
  whole numbers of milliseconds, not negative.
\<close>

record 'u chain_options =
  opt_withoutThrow :: "bool option"
  opt_retry :: "int option"
  opt_retryWhen :: "'u retry_when option"
  opt_retryDelay :: "nat option"
  opt_timeout :: "nat option"

text \<open>What \<open>parseChainOptions\<close> returns.\<close>

record 'u parsed_options =
  withoutThrow :: bool
  maxRetries :: int
  retryWhen :: "'u retry_when option"
  retryDelay :: nat
  timeout :: "nat option"

definition parseChainOptions :: "'u chain_options option \<Rightarrow> 'u parsed_options" where
  "parseChainOptions options =
     \<lparr> withoutThrow = (case Option.bind options opt_withoutThrow of None \<Rightarrow> False | Some b \<Rightarrow> b),
       maxRetries = (case Option.bind options opt_retry of None \<Rightarrow> 0 | Some r \<Rightarrow> r),
       retryWhen = Option.bind options opt_retryWhen,
       retryDelay = (case Option.bind options opt_retryDelay of None \<Rightarrow> 0 | Some d \<Rightarrow> d),
       timeout = Option.bind options opt_timeout \<rparr>"

text \<open>
  \<open>wrapResult(result, error, withoutThrow)\<close>. \<open>Inl e\<close> is \<open>throw e\<close>; \<open>Inr v\<close> is the
  value returned. An Error object is truthy, so \<open>if (error)\<close> is the test for a given
  error.
\<close>

definition wrapResult :: "jsval \<Rightarrow> jserror option \<Rightarrow> bool \<Rightarrow> jserror + jsval" where
  "wrapResult result error wt =
     (case error of
        Some e \<Rightarrow> (if wt then Inr (VObject [(''error'', VError e)]) else Inl e)
      | None \<Rightarrow> (if wt then Inr (VObject [(''data'', result)]) else Inr result))"

section \<open>The Chains engine\<close>

subsection \<open>Execution history and results view\<close>

text \<open>
  The execution history is the object \<open>{r1: \<dots>, r2: \<dots>}\<close>; the entry under the key
  \<open>r${n}\<close> is kept under \<open>n\<close>. A property name read from the results view is either
  of that shape (\<open>R n\<close>) or any other string.
\<close>

type_synonym execution_history = "nat \<rightharpoonup> jsval"

datatype key = R nat | Other string

text \<open>
  The Proxy handed to a step function. Both classes build it the same way up to the test
  that guards the lookup (\<open>key.startsWith('r')\<close> in \<open>ChainsImpl\<close>, \<open>hasOwnProperty\<close> in
  \<open>ChainsInitImpl\<close>): a key with an entry in the history reads that entry, every other
  key reads \<open>undefined\<close>. The target of the Proxy is a new empty object and there is no
  \<open>set\<close> trap: what a step function assigns to the view does not reach the history.
\<close>

definition results_proxy :: "execution_history \<Rightarrow> key \<Rightarrow> jsval" where
  "results_proxy h k =
     (case k of
        R n \<Rightarrow> (case h n of Some v \<Rightarrow> v | None \<Rightarrow> VUndefined)
      | Other s \<Rightarrow> VUndefined)"

subsection \<open>Step functions, attempts and the timeout race\<close>

text \<open>
  What one call of a step function does: \<open>After ms c\<close> settles \<open>ms\<close> milliseconds after
  the call, by returning (resolving with) a value or by throwing (rejecting with) one;
  a synchronous return or throw is \<open>After 0\<close>. \<open>Never\<close> is a promise that never settles.
\<close>

datatype completion = Returns jsval | Throws jsval

datatype behaviour = After nat completion | Never

text \<open>
  A step function reads the results view and the caller's own variables (of type \<open>'u\<close>:
  counters such as \<open>attempts++\<close>), which it may change.
\<close>

type_synonym 'u step_fn = "(key \<Rightarrow> jsval) \<Rightarrow> 'u \<Rightarrow> behaviour \<times> 'u"

text \<open>
  The outcome of one attempt as the \<open>try\<close> block sees it: \<open>await\<close> yields a value, or
  throws, or never resumes.
\<close>

datatype outcome = Value jsval | Thrown jsval | Unsettled

text \<open>
  \<open>Promise.race\<close> of the step function's promise against a timer of \<open>timeout\<close>
  milliseconds that rejects with \<open>new TimeoutError(timeout, stepno)\<close>. The function is
  called before the timer is set, so it wins when it settles within the time. Without
  a timeout the attempt is the function's own completion.
\<close>

definition attempt_outcome :: "behaviour \<Rightarrow> nat option \<Rightarrow> nat \<Rightarrow> outcome" where
  "attempt_outcome b tmo stepno =
     (case tmo of
        None \<Rightarrow>
          (case b of
             After ms (Returns v) \<Rightarrow> Value v
           | After ms (Throws x) \<Rightarrow> Thrown x
           | Never \<Rightarrow> Unsettled)
      | Some t \<Rightarrow>
          (case b of
             After ms c \<Rightarrow>
               (if ms \<le> t then (case c of Returns v \<Rightarrow> Value v | Throws x \<Rightarrow> Thrown x)
                else Thrown (VError (TimeoutError t (Some stepno))))
           | Never \<Rightarrow> Thrown (VError (TimeoutError t (Some stepno)))))"

subsection \<open>State\<close>

text \<open>
  What a run can observe, in order: each call of a step function, with the results view
  it was given and the outcome of the attempt, and each pause before a retry. The
  trace is not a variable of the program; it records what the program does.
\<close>

datatype event = Attempt "key \<Rightarrow> jsval" outcome | Sleep nat

text \<open>
  The state around the builders: the history object (created once by the constructor;
  every builder made from it holds a reference to this one object), the caller's
  variables and the trace.
\<close>

record 'u world =
  history :: execution_history
  user :: 'u
  trace :: "event list"

text \<open>How a task (a promise) ends: fulfilled, rejected, or pending for ever.\<close>

datatype settled = Fulfilled jsval | Rejected jserror | Pending

definition settle :: "jserror + jsval \<Rightarrow> settled" where
  "settle r = (case r of Inl e \<Rightarrow> Rejected e | Inr v \<Rightarrow> Fulfilled v)"

record ChainsImpl =
  asyncTask :: settled
  index :: nat

record ChainsInitImpl =
  resultIndex :: nat

subsection \<open>The retry loop\<close>

text \<open>
  The body of the \<open>try\<close> block up to the end of the \<open>await\<close>: the write to the history
  (\<open>write_back\<close>; only \<open>ChainsImpl\<close> has one), the call of the step function on the
  Proxy, and the race. The Proxy reads the history at the time of the call.
\<close>

definition one_attempt ::
  "'u parsed_options \<Rightarrow> 'u step_fn \<Rightarrow> (execution_history \<Rightarrow> execution_history) \<Rightarrow> nat \<Rightarrow>
   'u world \<Rightarrow> outcome \<times> 'u world" where
  "one_attempt p fn write_back stepno w =
     (let h = write_back (history w);
          resultProxy = results_proxy h;
          (b, u') = fn resultProxy (user w);
          out = attempt_outcome b (timeout p) stepno
      in (out, \<lparr> history = h, user = u', trace = trace w @ [Attempt resultProxy out] \<rparr>))"

definition pause :: "nat \<Rightarrow> 'u world \<Rightarrow> 'u world" where
  "pause ms w = (if ms > 0 then w\<lparr> trace := trace w @ [Sleep ms] \<rparr> else w)"

text \<open>
  \<open>while (attempt <= maxRetries) { try { \<dots> } catch (error) { \<dots> } }\<close>, the same loop in
  both classes. They differ in the write to the history and in the step number given
  to \<open>TimeoutError\<close>, which are parameters here. In the \<open>catch\<close> block
  \<open>normalizeError\<close> runs first: when it throws, the async function is rejected with
  what it threw, whatever \<open>withoutThrow\<close> and \<open>retry\<close> say. \<open>shouldRetry\<close> is called
  only while \<open>attempt < maxRetries\<close>. When the loop is never entered the async function
  returns \<open>undefined\<close>.
\<close>

function attempt_loop ::
  "'u parsed_options \<Rightarrow> 'u step_fn \<Rightarrow> (execution_history \<Rightarrow> execution_history) \<Rightarrow> nat \<Rightarrow>
   int \<Rightarrow> 'u world \<Rightarrow> settled \<times> 'u world" where
  "attempt_loop p fn write_back stepno attempt w =
     (if attempt \<le> maxRetries p then
        (case one_attempt p fn write_back stepno w of
           (Value result, w') \<Rightarrow> (settle (wrapResult result None (withoutThrow p)), w')
         | (Unsettled, w') \<Rightarrow> (Pending, w')
         | (Thrown error, w') \<Rightarrow>
             (case normalizeError error of
                Inl thrown \<Rightarrow> (Rejected thrown, w')
              | Inr lastError \<Rightarrow>
                  if attempt < maxRetries p then
                    (case shouldRetry lastError (retryWhen p) (user w') of
                       (True, u') \<Rightarrow>
                         attempt_loop p fn write_back stepno (attempt + 1)
                           (pause (retryDelay p) (w'\<lparr> user := u' \<rparr>))
                     | (False, u') \<Rightarrow>
                         (settle (wrapResult VUndefined (Some lastError) (withoutThrow p)),
                          w'\<lparr> user := u' \<rparr>))
                  else (settle (wrapResult VUndefined (Some lastError) (withoutThrow p)), w')))
      else (Fulfilled VUndefined, w))"
  by pat_completeness auto
termination
  by (relation "measure (\<lambda>(p, fn, write_back, stepno, attempt, w). nat (maxRetries p + 1 - attempt))")
     auto

declare attempt_loop.simps [simp del]

subsection \<open>The builders\<close>

text \<open>
  The constructor of \<open>ChainsInitImpl\<close> (and of \<open>Chains\<close>, which only calls it).
  \<open>initialData\<close> is \<open>VUndefined\<close> when no argument is given. \<open>u\<close> is the state of the
  caller's variables at that moment.
\<close>

definition ChainsInitImpl_new :: "jsval \<Rightarrow> 'u \<Rightarrow> 'u world \<times> ChainsInitImpl" where
  "ChainsInitImpl_new initialData u =
     (if initialData \<noteq> VUndefined
      then (\<lparr> history = [1 \<mapsto> initialData], user = u, trace = [] \<rparr>, \<lparr> resultIndex = 1 \<rparr>)
      else (\<lparr> history = Map.empty, user = u, trace = [] \<rparr>, \<lparr> resultIndex = 0 \<rparr>))"

text \<open>
  \<open>ChainsInitImpl.chain\<close>. The new task is started by \<open>chain\<close> itself (the call
  \<open>newAsyncTask()\<close> in the arguments of \<open>new ChainsImpl\<close>); its first attempt calls the
  step function before \<open>chain\<close> returns. The model runs a task from its start to the state
  in which it settles or waits for ever, so \<open>chain\<close> takes the world and returns it as
  the task leaves it, with the builder that holds the task. A call of \<open>chain\<close> in the
  model is thus a call of \<open>chain\<close> in the code together with the run of the task it
  starts; calls of the model follow one another in the order in which the tasks run.
\<close>

definition ChainsInitImpl_chain ::
  "'u world \<Rightarrow> ChainsInitImpl \<Rightarrow> 'u step_fn \<Rightarrow> 'u chain_options option \<Rightarrow> 'u world \<times> ChainsImpl" where
  "ChainsInitImpl_chain w this fn options =
     (let p = parseChainOptions options;
          currentResultIndex = resultIndex this;
          (task, w') = attempt_loop p fn (\<lambda>h. h) (currentResultIndex + 1) 0 w
      in (w', \<lparr> asyncTask = task, index = resultIndex this + 1 \<rparr>))"

definition ChainsInitImpl_invoke :: "ChainsInitImpl \<Rightarrow> settled" where
  "ChainsInitImpl_invoke this = Fulfilled VUndefined"

text \<open>
  \<open>ChainsImpl.chain\<close>. The new task first awaits the task of the receiver: a rejection
  is rethrown outside the \<open>try\<close> block and rejects the new task with the same error, and
  nothing of the loop runs. Each attempt starts by storing the previous result under
  \<open>r${this.index}\<close> when \<open>this.index > 0\<close>.
\<close>

definition ChainsImpl_chain ::
  "'u world \<Rightarrow> ChainsImpl \<Rightarrow> 'u step_fn \<Rightarrow> 'u chain_options option \<Rightarrow> 'u world \<times> ChainsImpl" where
  "ChainsImpl_chain w this fn options =
     (let p = parseChainOptions options;
          currentIndex = index this
      in case asyncTask this of
           Rejected e \<Rightarrow> (w, \<lparr> asyncTask = Rejected e, index = index this + 1 \<rparr>)
         | Pending \<Rightarrow> (w, \<lparr> asyncTask = Pending, index = index this + 1 \<rparr>)
         | Fulfilled previousResult \<Rightarrow>
             (let (task, w') =
                    attempt_loop p fn
                      (\<lambda>h. if index this > 0 then h(index this \<mapsto> previousResult) else h)
                      currentIndex 0 w
              in (w', \<lparr> asyncTask = task, index = index this + 1 \<rparr>)))"

definition ChainsImpl_invoke :: "ChainsImpl \<Rightarrow> settled" where
  "ChainsImpl_invoke this = asyncTask this"

text \<open>
  A builder is an object of one of the two classes; \<open>chain\<close> and \<open>invoke\<close> are the
  methods of its class.
\<close>

datatype builder = Init ChainsInitImpl | Impl ChainsImpl

definition Chains_new :: "jsval \<Rightarrow> 'u \<Rightarrow> 'u world \<times> builder" where
  "Chains_new initialData u = (case ChainsInitImpl_new initialData u of (w, b) \<Rightarrow> (w, Init b))"

definition createChains :: "jsval \<Rightarrow> 'u \<Rightarrow> 'u world \<times> builder" where
  "createChains initialData u = Chains_new initialData u"

fun chain :: "'u world \<times> builder \<Rightarrow> 'u step_fn \<times> 'u chain_options option \<Rightarrow> 'u world \<times> builder" where
  "chain (w, Init b) (fn, options) = (case ChainsInitImpl_chain w b fn options of (w', b') \<Rightarrow> (w', Impl b'))"
| "chain (w, Impl b) (fn, options) = (case ChainsImpl_chain w b fn options of (w', b') \<Rightarrow> (w', Impl b'))"

fun invoke :: "builder \<Rightarrow> settled" where
  "invoke (Init b) = ChainsInitImpl_invoke b"
| "invoke (Impl b) = ChainsImpl_invoke b"

text \<open>
  A chain written in one expression, \<open>new Chains(seed).chain(f1, o1)\<dots>chain(fN, oN)\<close>:
  each \<open>chain\<close> is called on the builder the one before returned, and no builder is used
  twice.
\<close>

definition build :: "jsval \<Rightarrow> 'u \<Rightarrow> ('u step_fn \<times> 'u chain_options option) list \<Rightarrow> 'u world \<times> builder" where
  "build seed u steps = foldl chain (Chains_new seed u) steps"

subsection \<open>Regular expressions\<close>





subsection \<open>Matching a string against an error\<close>


subsection \<open>Describing what a step did\<close>

text \<open>
  \<open>with_pauses d es\<close> is the list \<open>es\<close> with a pause of \<open>d\<close> milliseconds between each
  two neighbours when \<open>d > 0\<close>, and \<open>es\<close> itself when \<open>d = 0\<close>: no pause before the
  first element, none after the last.
\<close>

fun with_pauses :: "nat \<Rightarrow> event list \<Rightarrow> event list" where
  "with_pauses d [] = []"
| "with_pauses d [e] = [e]"
| "with_pauses d (e # e' # es) = e # (if d > 0 then [Sleep d] else []) @ with_pauses d (e' # es)"

text \<open>
  How a step's task settles after an attempt that is not retried: \<open>wrapResult\<close> on the
  value, or on the normalized error, under the step's \<open>withoutThrow\<close>; a thrown value
  that \<open>normalizeError\<close> cannot convert rejects the task with the error of the
  conversion.
\<close>

definition settlement :: "'u parsed_options \<Rightarrow> outcome \<Rightarrow> settled" where
  "settlement p out =
     (case out of
        Value v \<Rightarrow> settle (wrapResult v None (withoutThrow p))
      | Thrown x \<Rightarrow>
          (case normalizeError x of
             Inl t \<Rightarrow> Rejected t
           | Inr e \<Rightarrow> settle (wrapResult VUndefined (Some e) (withoutThrow p)))
      | Unsettled \<Rightarrow> Pending)"

text \<open>
  The answer of the \<open>catch\<close> block to a thrown value \<open>x\<close> while retries are left, with
  the caller's variables \<open>u\<close> as they are at that moment: no when \<open>x\<close> cannot be
  normalized, else what \<open>shouldRetry\<close> says of the normalized error.
\<close>

definition retry_check :: "'u parsed_options \<Rightarrow> jsval \<Rightarrow> 'u \<Rightarrow> bool \<times> 'u" where
  "retry_check p x u =
     (case normalizeError x of Inl t \<Rightarrow> (False, u) | Inr e \<Rightarrow> shouldRetry e (retryWhen p) u)"

text \<open>
  \<open>retried p fn view sn k u\<close>: starting with the caller's variables \<open>u\<close>, each of the
  next \<open>k\<close> attempts fails and passes the check made after it; each attempt and each
  check starts from the variables as the one before left them.
\<close>

fun retried :: "'u parsed_options \<Rightarrow> 'u step_fn \<Rightarrow> (key \<Rightarrow> jsval) \<Rightarrow> nat \<Rightarrow> nat \<Rightarrow> 'u \<Rightarrow> bool" where
  "retried p fn view sn 0 u = True"
| "retried p fn view sn (Suc k) u =
     (case attempt_outcome (fst (fn view u)) (timeout p) sn of
        Thrown x \<Rightarrow>
          fst (retry_check p x (snd (fn view u))) \<and>
          retried p fn view sn k (snd (retry_check p x (snd (fn view u))))
      | _ \<Rightarrow> False)"

subsection \<open>Builders in a chain\<close>

text \<open>
  A builder is ready when a step chained to it starts its attempts: the initial builder
  always, a later builder when its own task is fulfilled.
\<close>

definition ready :: "builder \<Rightarrow> bool" where
  "ready b = (case b of Init i \<Rightarrow> True | Impl c \<Rightarrow> (case asyncTask c of Fulfilled v \<Rightarrow> True | _ \<Rightarrow> False))"

text \<open>
  The position of the last step a builder holds (of the seed, or 0, for the initial
  builder): the key under which that step's result belongs in the history.
\<close>

definition position :: "builder \<Rightarrow> nat" where
  "position b = (case b of Init i \<Rightarrow> resultIndex i | Impl c \<Rightarrow> index c)"

text \<open>
  The write to the history at the start of each attempt of a step chained to \<open>b\<close>, and
  the step number that step gives to \<open>TimeoutError\<close>, read off the two \<open>chain\<close> methods.
\<close>

definition prev_write :: "builder \<Rightarrow> execution_history \<Rightarrow> execution_history" where
  "prev_write b h =
     (case b of
        Init i \<Rightarrow> h
      | Impl c \<Rightarrow>
          (case asyncTask c of
             Fulfilled previousResult \<Rightarrow> (if index c > 0 then h(index c \<mapsto> previousResult) else h)
           | _ \<Rightarrow> h))"

definition reported_step :: "builder \<Rightarrow> nat" where
  "reported_step b = (case b of Init i \<Rightarrow> resultIndex i + 1 | Impl c \<Rightarrow> index c)"


subsection \<open>A chain without failures, in the words of the specification\<close>









text \<open>
  The history of a chain built in one expression holds entries only at positions the
  chain has passed: up to the seed for the initial builder, below the position of the
  builder's own step otherwise.
\<close>

definition linear :: "'u world \<times> builder \<Rightarrow> bool" where
  "linear s =
     (case s of
        (w, Init i) \<Rightarrow> dom (history w) \<subseteq> {1..resultIndex i}
      | (w, Impl c) \<Rightarrow> dom (history w) \<subseteq> {1..<index c})"

subsection \<open>Example inputs\<close>




text \<open>
  The empty options object \<open>{}\<close>, a step function that counts its calls and returns
  \<open>10\<close>, and one that counts its calls and returns a promise that never settles.
\<close>

definition no_options :: "'u chain_options" where
  "no_options = \<lparr> opt_withoutThrow = None, opt_retry = None, opt_retryWhen = None,
     opt_retryDelay = None, opt_timeout = None \<rparr>"

definition returns_ten :: "nat step_fn" where
  "returns_ten results u = (After 0 (Returns (VNum 10)), Suc u)"

definition never_settles :: "nat step_fn" where
  "never_settles results u = (Never, Suc u)"

text \<open>
  A step function that counts its calls and throws
  \<open>new Error('x')\<close>; the options \<open>{withoutThrow: true}\<close>; a step function that reads
  \<open>r1\<close> and returns \<open>'error occurred'\<close> when it has the key \<open>error\<close>, \<open>'success'\<close>
  otherwise.
\<close>

definition throws_x :: "nat step_fn" where
  "throws_x results u = (After 0 (Throws (VError (UserError [] ''x''))), Suc u)"



text \<open>
  Step functions that count their calls and throw a value that is not an Error object:
  the string \<open>'boom'\<close>, and the object \<open>{toString: 1}\<close>, which \<open>String\<close> cannot convert.
\<close>

definition throws_boom :: "nat step_fn" where
  "throws_boom results u = (After 0 (Throws (VStr ''boom'')), Suc u)"

definition throws_unconvertible :: "nat step_fn" where
  "throws_unconvertible results u = (After 0 (Throws (VObject [(''toString'', VNum 1)])), Suc u)"









text \<open>
  The step functions of \<open>chain(() => 10).chain(r => r.r1 * 2).chain(r => r.r2 + 5)\<close> and of
  \<open>new Chains(5).chain(r => r.r1 + 10).chain(r => r.r1 + r.r2)\<close>; each also counts its
  calls. Arithmetic on a value that is not a number is outside the model and returns
  \<open>undefined\<close> here.
\<close>

definition doubles_r1 :: "nat step_fn" where
  "doubles_r1 results u =
     (After 0 (Returns (case results (R 1) of VNum n \<Rightarrow> VNum (n * 2) | _ \<Rightarrow> VUndefined)), Suc u)"




text \<open>
  Two chains that start from the same builder. With \<open>init = new Chains()\<close>:
  \<open>a = init.chain(() => 'A')\<close>, \<open>b = init.chain(() => 'B')\<close>, \<open>a2 = a.chain(() => 10)\<close>,
  \<open>b2 = b.chain(() => 10)\<close>, \<open>a3 = a2.chain(r => r.r1)\<close>. The tasks run in the order in
  which they are written. The chain that ends in \<open>a3\<close> has the three step functions
  \<open>() => 'A'\<close>, \<open>() => 10\<close>, \<open>r => r.r1\<close>.
\<close>

definition returns_A :: "nat step_fn" where
  "returns_A results u = (After 0 (Returns (VStr ''A'')), Suc u)"

definition returns_B :: "nat step_fn" where
  "returns_B results u = (After 0 (Returns (VStr ''B'')), Suc u)"


definition shared_init :: "nat world \<times> builder" where
  "shared_init = Chains_new VUndefined 0"






text \<open>
  Two chains that part after the first step. With \<open>a = new Chains().chain(() => 10)\<close>:
  \<open>b = a.chain(() => 'A')\<close>, \<open>c = a.chain(() => 'B')\<close>, \<open>d = b.chain(() => 10)\<close>,
  \<open>e = c.chain(() => 10)\<close>. Both \<open>d\<close> and \<open>e\<close> store the result of their second step
  under \<open>r2\<close>.
\<close>

definition fork_a :: "nat world \<times> builder" where
  "fork_a = chain shared_init (returns_ten, None)"

definition fork_b :: "nat world \<times> builder" where
  "fork_b = chain fork_a (returns_A, None)"

definition fork_c :: "nat world \<times> builder" where
  "fork_c = chain (fst fork_b, snd fork_a) (returns_B, None)"

definition fork_d :: "nat world \<times> builder" where
  "fork_d = chain (fst fork_c, snd fork_b) (returns_ten, None)"

definition fork_e :: "nat world \<times> builder" where
  "fork_e = chain (fst fork_d, snd fork_c) (returns_ten, None)"

section \<open>Properties\<close>

subsection \<open>Strings\<close>




subsection \<open>The retry loop, case by case\<close>

lemma loop_skip:
  "\<not> attempt \<le> maxRetries p \<Longrightarrow> attempt_loop p fn wb sn attempt w = (Fulfilled VUndefined, w)"
  by (simp add: attempt_loop.simps)

lemma loop_value:
  "attempt \<le> maxRetries p \<Longrightarrow> one_attempt p fn wb sn w = (Value v, w') \<Longrightarrow>
   attempt_loop p fn wb sn attempt w = (settle (wrapResult v None (withoutThrow p)), w')"
  by (simp add: attempt_loop.simps)

lemma loop_unsettled:
  "attempt \<le> maxRetries p \<Longrightarrow> one_attempt p fn wb sn w = (Unsettled, w') \<Longrightarrow>
   attempt_loop p fn wb sn attempt w = (Pending, w')"
  by (simp add: attempt_loop.simps)

lemma loop_again:
  "attempt < maxRetries p \<Longrightarrow> one_attempt p fn wb sn w = (Thrown x, w') \<Longrightarrow>
   fst (retry_check p x (user w')) \<Longrightarrow>
   attempt_loop p fn wb sn attempt w =
     attempt_loop p fn wb sn (attempt + 1)
       (pause (retryDelay p) (w'\<lparr> user := snd (retry_check p x (user w')) \<rparr>))"
  by (subst attempt_loop.simps)
     (auto simp: retry_check_def split: sum.splits prod.splits bool.splits)

lemma loop_stop:
  "attempt \<le> maxRetries p \<Longrightarrow> one_attempt p fn wb sn w = (Thrown x, w') \<Longrightarrow>
   \<not> (attempt < maxRetries p \<and> fst (retry_check p x (user w'))) \<Longrightarrow>
   \<exists>u'. attempt_loop p fn wb sn attempt w = (settlement p (Thrown x), w'\<lparr> user := u' \<rparr>)"
proof -
  assume a: "attempt \<le> maxRetries p" "one_attempt p fn wb sn w = (Thrown x, w')"
    "\<not> (attempt < maxRetries p \<and> fst (retry_check p x (user w')))"
  have same: "w'\<lparr> user := user w' \<rparr> = w'" by simp
  show ?thesis
  proof (cases "normalizeError x")
    case (Inl t)
    with a have "attempt_loop p fn wb sn attempt w = (settlement p (Thrown x), w')"
      by (subst attempt_loop.simps) (simp add: settlement_def)
    with same show ?thesis by metis
  next
    case (Inr e)
    show ?thesis
    proof (cases "attempt < maxRetries p")
      case False
      with a Inr have "attempt_loop p fn wb sn attempt w = (settlement p (Thrown x), w')"
        by (subst attempt_loop.simps) (simp add: settlement_def)
      with same show ?thesis by metis
    next
      case True
      with a(3) Inr obtain u' where "shouldRetry e (retryWhen p) (user w') = (False, u')"
        by (cases "shouldRetry e (retryWhen p) (user w')") (auto simp: retry_check_def)
      with a True Inr have "attempt_loop p fn wb sn attempt w = (settlement p (Thrown x), w'\<lparr> user := u' \<rparr>)"
        by (subst attempt_loop.simps) (simp add: settlement_def)
      then show ?thesis by blast
    qed
  qed
qed

lemma one_attempt_trace:
  "one_attempt p fn wb sn w = (out, w') \<Longrightarrow>
   trace w' = trace w @ [Attempt (results_proxy (wb (history w))) out] \<and> history w' = wb (history w)"
  by (auto simp: one_attempt_def Let_def split: prod.splits)

lemma pause_trace: "\<exists>d. trace (pause ms w) = trace w @ d"
  by (simp add: pause_def)

lemma pause_history: "history (pause ms w) = history w"
  by (simp add: pause_def)

lemma pause_user: "user (pause ms w) = user w"
  by (simp add: pause_def)

lemma pause_trace_eq: "trace (pause ms w) = trace w @ (if ms > 0 then [Sleep ms] else [])"
  by (simp add: pause_def)


subsection \<open>Invoking a builder without steps\<close>

text \<open>
  Claim C10. \<open>invoke()\<close> on the builder the constructor returns, with or without an
  initial value and before any \<open>chain\<close>, is fulfilled with \<open>undefined\<close>; it is neither
  rejected nor left pending.
\<close>

theorem C10_invoke_without_steps:
  "invoke (snd (Chains_new seed u)) = Fulfilled VUndefined"
  by (simp add: Chains_new_def ChainsInitImpl_new_def ChainsInitImpl_invoke_def)

subsection \<open>retryWhen given as a string\<close>




subsection \<open>Running a chain on given inputs\<close>

text \<open>
  The loop unfolded once, with the outcome of the attempt as the scrutinee: on given
  inputs the simplifier then runs the loop attempt by attempt.
\<close>

lemma attempt_loop_step:
  "attempt_loop p fn wb sn attempt w =
     (if attempt \<le> maxRetries p then
        (case fst (one_attempt p fn wb sn w) of
           Value result \<Rightarrow>
             (settle (wrapResult result None (withoutThrow p)), snd (one_attempt p fn wb sn w))
         | Unsettled \<Rightarrow> (Pending, snd (one_attempt p fn wb sn w))
         | Thrown error \<Rightarrow>
             (case normalizeError error of
                Inl thrown \<Rightarrow> (Rejected thrown, snd (one_attempt p fn wb sn w))
              | Inr lastError \<Rightarrow>
                  (if attempt < maxRetries p then
                     (if fst (shouldRetry lastError (retryWhen p) (user (snd (one_attempt p fn wb sn w))))
                      then attempt_loop p fn wb sn (attempt + 1)
                             (pause (retryDelay p)
                                ((snd (one_attempt p fn wb sn w))
                                   \<lparr> user := snd (shouldRetry lastError (retryWhen p)
                                                    (user (snd (one_attempt p fn wb sn w)))) \<rparr>))
                      else (settle (wrapResult VUndefined (Some lastError) (withoutThrow p)),
                            (snd (one_attempt p fn wb sn w))
                              \<lparr> user := snd (shouldRetry lastError (retryWhen p)
                                               (user (snd (one_attempt p fn wb sn w)))) \<rparr>))
                   else (settle (wrapResult VUndefined (Some lastError) (withoutThrow p)),
                         snd (one_attempt p fn wb sn w)))))
      else (Fulfilled VUndefined, w))"
  by (subst attempt_loop.simps)
     (auto simp: Let_def split: prod.splits outcome.splits sum.splits bool.splits)

lemmas chain_eval =
  build_def Chains_new_def ChainsInitImpl_new_def ChainsInitImpl_chain_def ChainsImpl_chain_def
  ChainsImpl_invoke_def ChainsInitImpl_invoke_def parseChainOptions_def attempt_loop_step
  one_attempt_def Let_def attempt_outcome_def wrapResult_def settle_def pause_def

subsection \<open>The step number of a timeout error\<close>

text \<open>
  Claim C6. The claim asks that the timeout error of a step carries the position of that
  step. The first step does: \<open>ChainsInitImpl.chain\<close> passes \<open>currentResultIndex + 1\<close>.
  A later step does not: \<open>ChainsImpl.chain\<close> passes \<open>currentIndex\<close>, the position of the
  step before it. Here a never-settling function with \<open>{timeout: 100}\<close> reports step 1
  as the first step of a chain, and step 1 again as the second step.
\<close>

theorem C6_timeout_step_of_second_step:
  "invoke (snd (build VUndefined 0 [(never_settles, Some (no_options\<lparr> opt_timeout := Some 100 \<rparr>))]))
     = Rejected (TimeoutError 100 (Some 1)) \<and>
   invoke (snd (build VUndefined 0
      [(returns_ten, None), (never_settles, Some (no_options\<lparr> opt_timeout := Some 100 \<rparr>))]))
     = Rejected (TimeoutError 100 (Some 1)) \<and>
   message (TimeoutError 100 (Some 1)) = ''Operation timeout at step 1: exceeded 100ms''"
  by (simp add: chain_eval no_options_def returns_ten_def never_settles_def stepInfo_def
      magnitude_text_def decimal.simps digit_char_def)

subsection \<open>What chain runs\<close>

text \<open>
  Claim C7. The claim asks that \<open>chain\<close> runs no step function and that nothing runs
  before \<open>invoke\<close>. In the code \<open>chain\<close> starts the task: after \<open>new Chains().chain(f)\<close>,
  with no \<open>invoke\<close>, \<open>f\<close> has been called once (the caller's counter is 1 and the trace
  holds the attempt); after a second \<open>chain\<close> both functions have been called.
\<close>

theorem C7_chain_calls_the_step_function:
  "user (fst (chain (Chains_new VUndefined 0) (returns_ten, None))) = 1 \<and>
   trace (fst (chain (Chains_new VUndefined 0) (returns_ten, None))) =
     [Attempt (results_proxy Map.empty) (Value (VNum 10))] \<and>
   user (fst (build VUndefined 0 [(returns_ten, None), (returns_ten, None)])) = 2"
  by (simp add: chain_eval returns_ten_def)

subsection \<open>What a throw-mode step rejects with\<close>

text \<open>
  Claim C3. The claim asks that \<open>invoke()\<close> is rejected with the thrown error, normalized
  when it is not an Error object. \<open>normalizeError\<close> is written to take a value of any
  type and return an Error object: a thrown \<open>Error('x')\<close> is kept and a thrown string
  \<open>'boom'\<close> becomes \<open>Error('boom')\<close>, and \<open>invoke()\<close> is rejected with these. For the
  thrown object \<open>{toString: 1}\<close> the call \<open>String(error)\<close> inside \<open>normalizeError\<close>
  throws: \<open>invoke()\<close> is rejected with the \<open>TypeError\<close> of the conversion, which is
  neither the thrown value nor an error made from it. In all three chains the step
  after the failing one does not run (the counter of calls stays 1).
\<close>

theorem C3_unconvertible_throw_rejects_with_TypeError:
  "normalizeError (VObject [(''toString'', VNum 1)]) = Inl conversion_error \<and>
   invoke (snd (build VUndefined 0 [(throws_unconvertible, None), (returns_ten, None)])) =
     Rejected (UserError [''TypeError''] ''Cannot convert object to primitive value'') \<and>
   user (fst (build VUndefined 0 [(throws_unconvertible, None), (returns_ten, None)])) = 1 \<and>
   invoke (snd (build VUndefined 0 [(throws_x, None), (returns_ten, None)])) = Rejected (UserError [] ''x'') \<and>
   user (fst (build VUndefined 0 [(throws_x, None), (returns_ten, None)])) = 1 \<and>
   invoke (snd (build VUndefined 0 [(throws_boom, None), (returns_ten, None)])) = Rejected (UserError [] ''boom'') \<and>
   user (fst (build VUndefined 0 [(throws_boom, None), (returns_ten, None)])) = 1"
  by (simp add: chain_eval throws_unconvertible_def throws_x_def throws_boom_def returns_ten_def
      conversion_error_def)

subsection \<open>The shape of a step's attempts\<close>

lemma with_pauses_Cons:
  "es \<noteq> [] \<Longrightarrow> with_pauses d (e # es) = e # (if d > 0 then [Sleep d] else []) @ with_pauses d es"
  by (cases es) auto

lemma one_attempt_out:
  "one_attempt p fn wb sn w = (out, w') \<Longrightarrow>
   out = attempt_outcome (fst (fn (results_proxy (wb (history w))) (user w))) (timeout p) sn \<and>
   user w' = snd (fn (results_proxy (wb (history w))) (user w))"
  by (auto simp: one_attempt_def Let_def split: prod.splits)

lemma retried_Suc:
  assumes "one_attempt p fn wb sn w = (out, w1)"
  shows "retried p fn (results_proxy (wb (history w))) sn (Suc k) (user w) =
           (case out of
              Thrown x \<Rightarrow> fst (retry_check p x (user w1)) \<and>
                          retried p fn (results_proxy (wb (history w))) sn k (snd (retry_check p x (user w1)))
            | _ \<Rightarrow> False)"
  using one_attempt_out[OF assms] by (simp cong: outcome.case_cong)

lemma loop_shape:
  assumes "attempt_loop p fn wb sn attempt w = (s, w')"
    and "attempt \<le> maxRetries p"
    and "\<And>h. wb (wb h) = wb h"
  shows "\<exists>outs. outs \<noteq> [] \<and>
           trace w' = trace w @ with_pauses (retryDelay p) (map (Attempt (results_proxy (wb (history w)))) outs) \<and>
           history w' = wb (history w) \<and>
           s = settlement p (last outs) \<and>
           int (length outs) \<le> maxRetries p - attempt + 1 \<and>
           (\<forall>out \<in> set (butlast outs). \<exists>x. out = Thrown x) \<and>
           (\<forall>k. int k \<le> maxRetries p - attempt \<longrightarrow>
                (k < length outs) = retried p fn (results_proxy (wb (history w))) sn k (user w)) \<and>
           ((\<forall>out \<in> set outs. \<exists>x. out = Thrown x \<and> (\<forall>u. fst (retry_check p x u))) \<longrightarrow>
                int (length outs) = maxRetries p - attempt + 1)"
  using assms
proof (induction p fn wb sn attempt w rule: attempt_loop.induct)
  case (1 p fn wb sn attempt w)
  let ?view = "results_proxy (wb (history w))"
  obtain out w1 where oa: "one_attempt p fn wb sn w = (out, w1)" by (cases "one_attempt p fn wb sn w")
  note tr1 = one_attempt_trace[OF oa]
  note rS = retried_Suc[OF oa]
  have single: "?case" if "trace w' = trace w1" and "history w' = history w1" and "s = settlement p out"
    and "\<And>x. out = Thrown x \<Longrightarrow> \<not> (attempt < maxRetries p \<and> fst (retry_check p x (user w1)))"
  proof -
    have count: "\<forall>k. int k \<le> maxRetries p - attempt \<longrightarrow>
        (k < length [out]) = retried p fn ?view sn k (user w)"
    proof (intro allI impI)
      fix k assume k: "int k \<le> maxRetries p - attempt"
      show "(k < length [out]) = retried p fn ?view sn k (user w)"
      proof (cases k)
        case 0
        then show ?thesis by simp
      next
        case (Suc k')
        with k have "attempt < maxRetries p" by simp
        with that(4) have "\<not> retried p fn ?view sn (Suc k') (user w)"
          unfolding rS by (cases out) auto
        with Suc show ?thesis by simp
      qed
    qed
    have exact: "(\<forall>r \<in> set [out]. \<exists>x. r = Thrown x \<and> (\<forall>u. fst (retry_check p x u))) \<longrightarrow>
        int (length [out]) = maxRetries p - attempt + 1"
      using that(4) "1.prems"(2) by auto
    have "[out] \<noteq> [] \<and>
           trace w' = trace w @ with_pauses (retryDelay p) (map (Attempt ?view) [out]) \<and>
           history w' = wb (history w) \<and>
           s = settlement p (last [out]) \<and>
           int (length [out]) \<le> maxRetries p - attempt + 1 \<and>
           (\<forall>r \<in> set (butlast [out]). \<exists>x. r = Thrown x) \<and>
           (\<forall>k. int k \<le> maxRetries p - attempt \<longrightarrow>
                (k < length [out]) = retried p fn ?view sn k (user w)) \<and>
           ((\<forall>r \<in> set [out]. \<exists>x. r = Thrown x \<and> (\<forall>u. fst (retry_check p x u))) \<longrightarrow>
                int (length [out]) = maxRetries p - attempt + 1)"
      using that(1,2,3) tr1 "1.prems"(2) count exact by simp
    then show ?thesis by blast
  qed
  show ?case
  proof (cases out)
    case (Value v)
    with 1 oa have "(s, w') = (settlement p out, w1)" by (simp add: loop_value settlement_def)
    then show ?thesis using Value by (intro single) auto
  next
    case Unsettled
    with 1 oa have "(s, w') = (settlement p out, w1)" by (simp add: loop_unsettled settlement_def)
    then show ?thesis using Unsettled by (intro single) auto
  next
    case (Thrown x)
    show ?thesis
    proof (cases "attempt < maxRetries p \<and> fst (retry_check p x (user w1))")
      case False
      from loop_stop[OF "1.prems"(2) oa[unfolded Thrown] False] "1.prems"(1)
      obtain u' where "(s, w') = (settlement p out, w1\<lparr> user := u' \<rparr>)" using Thrown by auto
      then show ?thesis using Thrown False by (intro single) auto
    next
      case True
      define u' where "u' = snd (retry_check p x (user w1))"
      let ?w2 = "pause (retryDelay p) (w1\<lparr> user := u' \<rparr>)"
      from True obtain e where ne: "normalizeError x = Inr e"
        by (cases "normalizeError x") (auto simp: retry_check_def)
      with True have sr: "shouldRetry e (retryWhen p) (user w1) = (True, u')"
        unfolding u'_def by (cases "shouldRetry e (retryWhen p) (user w1)") (auto simp: retry_check_def)
      from True oa Thrown "1.prems"(1)
      have eq: "attempt_loop p fn wb sn (attempt + 1) ?w2 = (s, w')"
        by (simp add: loop_again u'_def)
      from True have lt: "attempt < maxRetries p" and le: "attempt + 1 \<le> maxRetries p" by simp_all
      have h2: "history ?w2 = wb (history w)" using tr1 by (simp add: pause_history)
      then have wbh: "wb (history ?w2) = wb (history w)" using "1.prems"(3) by simp
      have u2: "user ?w2 = u'" by (simp add: pause_user)
      from "1.IH"[OF "1.prems"(2) oa[symmetric] Thrown ne lt sr[symmetric] refl eq le "1.prems"(3)]
      obtain outs where o: "outs \<noteq> []"
        "trace w' = trace ?w2 @ with_pauses (retryDelay p) (map (Attempt ?view) outs)"
        "history w' = wb (history w)"
        "s = settlement p (last outs)"
        "int (length outs) \<le> maxRetries p - (attempt + 1) + 1"
        "\<forall>out \<in> set (butlast outs). \<exists>x. out = Thrown x"
        "\<forall>k. int k \<le> maxRetries p - (attempt + 1) \<longrightarrow>
            (k < length outs) = retried p fn ?view sn k u'"
        "(\<forall>out \<in> set outs. \<exists>x. out = Thrown x \<and> (\<forall>u. fst (retry_check p x u))) \<longrightarrow>
            int (length outs) = maxRetries p - (attempt + 1) + 1"
        unfolding wbh u2 by blast
      have t: "trace w' = trace w @ with_pauses (retryDelay p) (map (Attempt ?view) (out # outs))"
        using o(1) o(2) tr1 by (simp add: pause_trace_eq with_pauses_Cons)
      have b: "\<forall>r \<in> set (butlast (out # outs)). \<exists>x. r = Thrown x"
        using o(1) o(6) Thrown by auto
      have count: "\<forall>k. int k \<le> maxRetries p - attempt \<longrightarrow>
          (k < length (out # outs)) = retried p fn ?view sn k (user w)"
      proof (intro allI impI)
        fix k assume k: "int k \<le> maxRetries p - attempt"
        show "(k < length (out # outs)) = retried p fn ?view sn k (user w)"
        proof (cases k)
          case 0
          then show ?thesis by simp
        next
          case (Suc k')
          with k have "int k' \<le> maxRetries p - (attempt + 1)" by simp
          with o(7) have "(k' < length outs) = retried p fn ?view sn k' u'" by blast
          moreover have "retried p fn ?view sn (Suc k') (user w) = retried p fn ?view sn k' u'"
            unfolding rS using Thrown True by (simp add: u'_def)
          ultimately show ?thesis using Suc by simp
        qed
      qed
      have exact: "(\<forall>r \<in> set (out # outs). \<exists>x. r = Thrown x \<and> (\<forall>u. fst (retry_check p x u))) \<longrightarrow>
          int (length (out # outs)) = maxRetries p - attempt + 1"
        using o(8) by auto
      have "out # outs \<noteq> [] \<and>
           trace w' = trace w @ with_pauses (retryDelay p) (map (Attempt ?view) (out # outs)) \<and>
           history w' = wb (history w) \<and>
           s = settlement p (last (out # outs)) \<and>
           int (length (out # outs)) \<le> maxRetries p - attempt + 1 \<and>
           (\<forall>r \<in> set (butlast (out # outs)). \<exists>x. r = Thrown x) \<and>
           (\<forall>k. int k \<le> maxRetries p - attempt \<longrightarrow>
                (k < length (out # outs)) = retried p fn ?view sn k (user w)) \<and>
           ((\<forall>r \<in> set (out # outs). \<exists>x. r = Thrown x \<and> (\<forall>u. fst (retry_check p x u))) \<longrightarrow>
                int (length (out # outs)) = maxRetries p - attempt + 1)"
        using t b count exact o(1) o(3) o(4) o(5) by simp
      then show ?thesis by blast
    qed
  qed
qed

subsection \<open>One call of chain\<close>

lemma prev_write_idem: "prev_write b (prev_write b h) = prev_write b h"
  by (auto simp: prev_write_def split: builder.splits settled.splits)

lemma chain_ready:
  assumes "ready b" and "chain (w, b) (fn, options) = (w1, b1)"
  shows "\<exists>c. b1 = Impl c \<and> index c = position b + 1 \<and>
           attempt_loop (parseChainOptions options) fn (prev_write b) (reported_step b) 0 w = (asyncTask c, w1)"
proof (cases b)
  case (Init i)
  have pw: "prev_write b = (\<lambda>h. h)"
    using Init by (auto simp: prev_write_def)
  show ?thesis using assms(2) Init unfolding pw
    by (auto simp: ChainsInitImpl_chain_def Let_def position_def reported_step_def
        split: prod.splits)
next
  case (Impl c0)
  with assms(1) obtain v where v: "asyncTask c0 = Fulfilled v"
    by (auto simp: ready_def split: settled.splits)
  have pw: "prev_write b = (\<lambda>h. if index c0 > 0 then h(index c0 \<mapsto> v) else h)"
    using Impl v by (auto simp: prev_write_def)
  show ?thesis using assms(2) Impl v unfolding pw
    by (auto simp: ChainsImpl_chain_def Let_def position_def reported_step_def split: prod.splits)
qed

lemma chain_not_ready:
  assumes "\<not> ready b"
  shows "\<exists>c c'. b = Impl c \<and> chain (w, b) (fn, options) = (w, Impl c') \<and>
           asyncTask c' = asyncTask c \<and> index c' = index c + 1"
  using assms
  by (cases b) (auto simp: ready_def ChainsImpl_chain_def Let_def split: settled.splits)

lemma chain_shape:
  assumes "ready b" and "0 \<le> maxRetries (parseChainOptions options)"
    and "chain (w, b) (fn, options) = (w1, b1)"
  shows "\<exists>outs. outs \<noteq> [] \<and>
           trace w1 = trace w @ with_pauses (retryDelay (parseChainOptions options))
                                  (map (Attempt (results_proxy (prev_write b (history w)))) outs) \<and>
           history w1 = prev_write b (history w) \<and>
           invoke b1 = settlement (parseChainOptions options) (last outs) \<and>
           position b1 = position b + 1 \<and>
           int (length outs) \<le> maxRetries (parseChainOptions options) + 1 \<and>
           (\<forall>r \<in> set (butlast outs). \<exists>x. r = Thrown x) \<and>
           (\<forall>k. int k \<le> maxRetries (parseChainOptions options) \<longrightarrow>
                (k < length outs) =
                  retried (parseChainOptions options) fn (results_proxy (prev_write b (history w)))
                    (reported_step b) k (user w)) \<and>
           ((\<forall>out \<in> set outs. \<exists>x. out = Thrown x \<and> (\<forall>u. fst (retry_check (parseChainOptions options) x u))) \<longrightarrow>
                int (length outs) = maxRetries (parseChainOptions options) + 1)"
proof -
  from chain_ready[OF assms(1,3)] obtain c where c: "b1 = Impl c" "index c = position b + 1"
    "attempt_loop (parseChainOptions options) fn (prev_write b) (reported_step b) 0 w = (asyncTask c, w1)"
    by blast
  from loop_shape[OF c(3) assms(2) prev_write_idem]
  show ?thesis using c(1,2) by (simp add: ChainsImpl_invoke_def position_def)
qed

lemma rejected_stays:
  "asyncTask c = Rejected e \<Longrightarrow>
   \<exists>c'. foldl chain (w, Impl c) steps = (w, Impl c') \<and> asyncTask c' = Rejected e"
proof (induction steps arbitrary: c)
  case Nil
  then show ?case by simp
next
  case (Cons st steps)
  obtain fn options where st: "st = (fn, options)" by (cases st)
  let ?c1 = "\<lparr> asyncTask = Rejected e, index = index c + 1 \<rparr>"
  have "chain (w, Impl c) st = (w, Impl ?c1)"
    using Cons.prems by (simp add: st ChainsImpl_chain_def)
  moreover have "asyncTask ?c1 = Rejected e" by simp
  ultimately show ?case using Cons.IH[of ?c1] by simp
qed




lemma position_chain:
  "chain (w, b) (fn, options) = (w1, b1) \<Longrightarrow> position b1 = position b + 1 \<and> (\<exists>c. b1 = Impl c)"
  by (cases b) (auto simp: ChainsInitImpl_chain_def ChainsImpl_chain_def Let_def position_def
      split: prod.splits settled.splits)

subsection \<open>Capture mode\<close>






subsection \<open>The number of attempts and the pauses\<close>




subsection \<open>Chains without failures\<close>








lemma foldl_chain_Impl:
  "steps \<noteq> [] \<Longrightarrow> \<exists>w' c. foldl chain s steps = (w', Impl c)"
proof (induction steps arbitrary: s rule: rev_induct)
  case Nil
  then show ?case by simp
next
  case (snoc st steps)
  obtain w b where s': "foldl chain s steps = (w, b)" by (cases "foldl chain s steps")
  obtain fn options where st: "st = (fn, options)" by (cases st)
  obtain w1 b1 where c: "chain (w, b) (fn, options) = (w1, b1)" by (cases "chain (w, b) (fn, options)")
  from position_chain[OF c] show ?case by (auto simp: s' st c)
qed




subsection \<open>The history of a chain\<close>

lemma linear_new: "linear (Chains_new seed u)"
  by (auto simp: linear_def Chains_new_def ChainsInitImpl_new_def)

lemma linear_position:
  "linear (w, b) \<Longrightarrow> dom (history w) \<subseteq> {1..position b}"
  by (cases b) (auto simp: linear_def position_def)

lemma chain_history:
  assumes "chain (w, b) (fn, options) = (w1, b1)"
  shows "history w1 = history w \<or>
         (ready b \<and> 0 \<le> maxRetries (parseChainOptions options) \<and> history w1 = prev_write b (history w))"
proof (cases "ready b")
  case False
  from chain_not_ready[OF False, of w fn options] assms show ?thesis by auto
next
  case True
  show ?thesis
  proof (cases "0 \<le> maxRetries (parseChainOptions options)")
    case nonneg: True
    from chain_shape[OF True nonneg assms] show ?thesis using True nonneg by blast
  next
    case False
    from chain_ready[OF True assms] obtain c :: ChainsImpl where
      "attempt_loop (parseChainOptions options) fn (prev_write b) (reported_step b) 0 w = (asyncTask c, w1)"
      by blast
    with loop_skip[OF False, of fn "prev_write b" "reported_step b" w] show ?thesis by simp
  qed
qed

lemma prev_write_cases:
  "prev_write b h = h \<or> (\<exists>c v. b = Impl c \<and> asyncTask c = Fulfilled v \<and> 0 < index c \<and>
      prev_write b h = h(index c \<mapsto> v))"
  by (auto simp: prev_write_def split: builder.splits settled.splits)

lemma linear_chain:
  assumes "linear (w, b)" and "chain (w, b) (fn, options) = (w1, b1)"
  shows "linear (w1, b1)" and "history w \<subseteq>\<^sub>m history w1"
    and "dom (history w1) \<subseteq> insert (position b) (dom (history w))"
proof -
  from position_chain[OF assms(2)] obtain c1 where c1: "b1 = Impl c1" "position b1 = position b + 1"
    by blast
  then have i1: "index c1 = position b + 1" by (simp add: position_def)
  note lp = linear_position[OF assms(1)]
  have fresh: "\<And>c. b = Impl c \<Longrightarrow> index c \<notin> dom (history w)"
    using assms(1) by (auto simp: linear_def)
  from chain_history[OF assms(2)] prev_write_cases[of b "history w"]
  consider "history w1 = history w"
    | c v where "b = Impl c" "0 < index c" "history w1 = (history w)(index c \<mapsto> v)"
    by auto
  then have "linear (w1, b1) \<and> history w \<subseteq>\<^sub>m history w1 \<and>
      dom (history w1) \<subseteq> insert (position b) (dom (history w))"
  proof cases
    case 1
    then show ?thesis using lp c1(1) i1 by (auto simp: linear_def)
  next
    case 2
    have "history w \<subseteq>\<^sub>m (history w)(index c \<mapsto> v)"
      using fresh[OF 2(1)] by (auto simp: map_le_def)
    moreover have "position b = index c" using 2(1) by (simp add: position_def)
    ultimately show ?thesis using 2 lp c1(1) i1 by (auto simp: linear_def)
  qed
  then show "linear (w1, b1)" and "history w \<subseteq>\<^sub>m history w1"
    and "dom (history w1) \<subseteq> insert (position b) (dom (history w))" by auto
qed

lemma linear_build: "linear (build seed u steps)"
proof (induction steps rule: rev_induct)
  case Nil
  then show ?case by (simp add: build_def linear_new)
next
  case (snoc st steps)
  obtain w b where s: "build seed u steps = (w, b)" by (cases "build seed u steps")
  obtain fn options where st: "st = (fn, options)" by (cases st)
  obtain w1 b1 where c: "chain (w, b) (fn, options) = (w1, b1)" by (cases "chain (w, b) (fn, options)")
  have "build seed u (steps @ [st]) = (w1, b1)" using s c by (simp add: build_def st)
  moreover have "linear (w1, b1)" using linear_chain(1)[OF _ c] snoc s by simp
  ultimately show ?case by simp
qed

text \<open>
  Claim C8, as amended. In a chain built in one expression, chaining one more step
  \<open>st\<close> keeps every entry of the history as it is (none is changed, none deleted) and
  adds at most one entry, at the position of the step before \<open>st\<close>. All entries lie
  below the position of the last chained step: the result of the last step is not in
  the history, and entries appear in increasing order of position. When the step
  before \<open>st\<close> is fulfilled with \<open>v\<close> and the \<open>retry\<close> of \<open>st\<close> is not negative, the entry
  at that step's position is \<open>v\<close> from then on.
\<close>

theorem C8_history_of_a_chain:
  "history (fst (build seed u steps)) \<subseteq>\<^sub>m history (fst (build seed u (steps @ [st]))) \<and>
   dom (history (fst (build seed u (steps @ [st])))) \<subseteq>
     insert (position (snd (build seed u steps))) (dom (history (fst (build seed u steps)))) \<and>
   (steps \<noteq> [] \<longrightarrow>
      dom (history (fst (build seed u steps))) \<subseteq> {1..<position (snd (build seed u steps))}) \<and>
   (steps \<noteq> [] \<and> invoke (snd (build seed u steps)) = Fulfilled v \<and>
    0 \<le> maxRetries (parseChainOptions (snd st)) \<longrightarrow>
      history (fst (build seed u (steps @ [st]))) (position (snd (build seed u steps))) = Some v)"
proof -
  obtain w b where s: "build seed u steps = (w, b)" by (cases "build seed u steps")
  obtain fn options where st: "st = (fn, options)" by (cases st)
  obtain w1 b1 where c: "chain (w, b) (fn, options) = (w1, b1)" by (cases "chain (w, b) (fn, options)")
  have s1: "build seed u (steps @ [(fn, options)]) = (w1, b1)" using s c by (simp add: build_def)
  have lin: "linear (w, b)" using linear_build[of seed u steps] s by simp
  note lc = linear_chain[OF lin c]
  have a: "history w \<subseteq>\<^sub>m history w1" by (rule lc(2))
  have b: "dom (history w1) \<subseteq> insert (position b) (dom (history w))" by (rule lc(3))
  have c3: "steps \<noteq> [] \<longrightarrow> dom (history w) \<subseteq> {1..<position b}"
  proof
    assume "steps \<noteq> []"
    from foldl_chain_Impl[OF this, of "Chains_new seed u"] s obtain c0 where "b = Impl c0"
      by (auto simp: build_def)
    with lin show "dom (history w) \<subseteq> {1..<position b}" by (simp add: linear_def position_def)
  qed
  have d: "steps \<noteq> [] \<and> invoke b = Fulfilled v \<and> 0 \<le> maxRetries (parseChainOptions options) \<longrightarrow>
      history w1 (position b) = Some v"
  proof
    assume h: "steps \<noteq> [] \<and> invoke b = Fulfilled v \<and> 0 \<le> maxRetries (parseChainOptions options)"
    from foldl_chain_Impl[of steps "Chains_new seed u"] h s obtain c0 where c0: "b = Impl c0"
      by (auto simp: build_def)
    with h have t: "asyncTask c0 = Fulfilled v" by (simp add: ChainsImpl_invoke_def)
    then have rdy: "ready b" using c0 by (simp add: ready_def)
    have "position b > 0"
    proof -
      from h have "steps = butlast steps @ [last steps]" by simp
      then have "build seed u steps = chain (build seed u (butlast steps)) (last steps)"
        by (metis build_def foldl_Cons foldl_Nil foldl_append)
      then obtain w0 b0 fn0 o0 where "chain (w0, b0) (fn0, o0) = (w, b)"
        using s by (metis surj_pair)
      from position_chain[OF this] show ?thesis by simp
    qed
    then have "prev_write b (history w) = (history w)(position b \<mapsto> v)"
      using c0 t by (simp add: prev_write_def position_def)
    moreover from chain_shape[OF rdy _ c] h have "history w1 = prev_write b (history w)" by blast
    ultimately show "history w1 (position b) = Some v" by simp
  qed
  show ?thesis unfolding st using a b c3 d by (simp add: s s1)
qed

text \<open>
  Claim C8 as stated asks that entry \<open>k\<close> exists as soon as step \<open>k\<close> has completed,
  the last step included, and that no entry is changed once written, in every
  execution. After \<open>new Chains().chain(() => 10)\<close> has run, step 1 is fulfilled with 10
  and the history has no entry at position 1. And when two chains part after a common
  first step, the third step of the one writes \<open>r2 = 'A'\<close> and the third step of the
  other then writes \<open>r2 = 'B'\<close> over it, in the one history object they share.
\<close>

theorem C8_last_result_not_recorded_counterexample:
  "invoke (snd (build VUndefined 0 [(returns_ten, None)])) = Fulfilled (VNum 10) \<and>
   position (snd (build VUndefined 0 [(returns_ten, None)])) = 1 \<and>
   history (fst (build VUndefined 0 [(returns_ten, None)])) 1 = None \<and>
   invoke (snd fork_b) = Fulfilled (VStr ''A'') \<and>
   invoke (snd fork_c) = Fulfilled (VStr ''B'') \<and>
   history (fst fork_c) 2 = None \<and>
   history (fst fork_d) 2 = Some (VStr ''A'') \<and>
   history (fst fork_e) 2 = Some (VStr ''B'')"
  by (simp add: chain_eval returns_ten_def position_def fork_e_def fork_d_def fork_c_def
      fork_b_def fork_a_def shared_init_def returns_A_def returns_B_def)

text \<open>
  Chaining a second step to that chain writes \<open>r1 = 10\<close>, and nothing else.
\<close>

theorem C8_history_of_a_chain_witness:
  "[(returns_ten, None)] \<noteq> [] \<and>
   invoke (snd (build VUndefined 0 [(returns_ten, None)])) = Fulfilled (VNum 10) \<and>
   0 \<le> maxRetries (parseChainOptions (snd (doubles_r1, None))) \<and>
   history (fst (build VUndefined 0 [(returns_ten, None)])) = Map.empty \<and>
   history (fst (build VUndefined 0 ([(returns_ten, None)] @ [(doubles_r1, None)]))) 1 = Some (VNum 10) \<and>
   dom (history (fst (build VUndefined 0 ([(returns_ten, None)] @ [(doubles_r1, None)])))) \<subseteq> {1}"
proof -
  let ?steps = "[(returns_ten, None)]"
  let ?st = "(doubles_r1, None)"
  have ne: "?steps \<noteq> []" by simp
  have i: "invoke (snd (build VUndefined 0 ?steps)) = Fulfilled (VNum 10)"
    and p: "position (snd (build VUndefined 0 ?steps)) = 1"
    and h: "history (fst (build VUndefined 0 ?steps)) = Map.empty"
    by (simp_all add: chain_eval returns_ten_def position_def)
  have m: "0 \<le> maxRetries (parseChainOptions (snd ?st))" by (simp add: parseChainOptions_def)
  from C8_history_of_a_chain[of VUndefined 0 ?steps ?st "VNum 10"] ne i m
  have "history (fst (build VUndefined 0 (?steps @ [?st]))) (position (snd (build VUndefined 0 ?steps)))
          = Some (VNum 10)"
    and "dom (history (fst (build VUndefined 0 (?steps @ [?st])))) \<subseteq>
     insert (position (snd (build VUndefined 0 ?steps))) (dom (history (fst (build VUndefined 0 ?steps))))"
    by blast+
  then show ?thesis using ne i m h p by simp
qed

end
